theory Spec2Isabelle
  imports Complex_Main
begin

section \<open>The hit bar of \<^verbatim>\<open>src/hitBar.py\<close>\<close>

text \<open>
  The file defines the class \<^verbatim>\<open>hitBar\<close> twice; the second definition (from line 201)
  replaces the first when the module is loaded, and it is the one embedded here.

  Python integers are \<open>int\<close>. The arrays of the class hold \<^verbatim>\<open>float32\<close> numbers: they are
  reals here, and every numpy operation on them rounds its result to \<^verbatim>\<open>float32\<close> with
  \<open>f32\<close>. A method that mutates the object takes the state and returns the new one; a
  raise is a value of \<open>error\<close>, returned beside the state the object is left in. The
  diagnostic \<^verbatim>\<open>print\<close> of \<^verbatim>\<open>update\<close> is left out.
\<close>

subsection \<open>Data\<close>

type_synonym point = "real \<times> real"

type_synonym pixel = "int \<times> int"

datatype error = TypeError | IndexError | KeyError | AttributeError | Cv2Error

text \<open>
  An image is the pixel array the caller supplies, or the record of the OpenCV drawing
  calls applied to one: \<^verbatim>\<open>fillPoly\<close>, \<^verbatim>\<open>addWeighted\<close> and \<^verbatim>\<open>line\<close> are library
  routines, kept as constructors.
\<close>

datatype image =
    Array "int list list list"
  | FillPoly image "(int \<times> int) list" "int list"
  | AddWeighted image real image real real
  | Line image "int \<times> int" "int \<times> int" "int list" int

text \<open>
  A detection frame is the dictionary \<^verbatim>\<open>detailedResult\<close>. The three lists are read with
  \<^verbatim>\<open>.get(key, [])\<close>, so an absent key is the empty list; for \<^verbatim>\<open>numProjection\<close> the code
  tests the presence of the key, so it is optional here. A position is a tuple of two
  Python integers, as the annotations of \<^verbatim>\<open>_hasIn\<close> and \<^verbatim>\<open>_inRealm\<close> have it.
\<close>

record frame =
  labels :: "string list"
  IDs :: "int list"
  midPoints :: "pixel list"
  numProjection :: "(string \<rightharpoonup> (int \<times> int) list) option"

record hitBar =
  name :: string
  visualize :: bool
  imgSize :: "int list option"
  startPoint :: pixel
  endPoint :: pixel
  maxLength :: int
  width :: real
  direction :: point
  realmIn :: "point list"
  realmOut :: "point list"
  history :: "frame list"
  Accumulator :: "string \<rightharpoonup> int"
  monitoredCatagories :: "string set"
  imgOut :: "image option"

text \<open>
  \<^verbatim>\<open>monitoredCatagories\<close> is rebuilt as \<^verbatim>\<open>list(set(...))\<close>, whose order Python does not
  fix, and it is only ever tested for membership: it is a set here.
\<close>

subsection \<open>\<^verbatim>\<open>float32\<close>\<close>

text \<open>
  \<open>f32 x\<close> is the \<^verbatim>\<open>float32\<close> nearest to \<open>x\<close>, ties to the even significand: 24 bits
  of significand, and the fixed spacing \<open>2 ^ - 149\<close> of the subnormal numbers below
  \<open>2 ^ - 126\<close>. The exponent has no upper bound here: the infinity that \<^verbatim>\<open>float32\<close>
  gives from \<open>2 ^ 128\<close> on is not represented, and the properties below that depend on
  coordinates are stated for coordinates that fit a C \<^verbatim>\<open>int\<close>.
\<close>

definition round_even :: "real \<Rightarrow> int" where
  "round_even x =
     (let f = \<lfloor>x\<rfloor>; r = x - of_int f
      in if r < 1 / 2 then f else if 1 / 2 < r then f + 1 else if even f then f else f + 1)"

definition expo :: "real \<Rightarrow> int" where
  "expo x = max (\<lfloor>log 2 \<bar>x\<bar>\<rfloor> - 23) (- 149)"

definition f32 :: "real \<Rightarrow> real" where
  "f32 x =
     (if x = 0 then 0
      else of_int (round_even (x / 2 powr of_int (expo x))) * 2 powr of_int (expo x))"

subsection \<open>Vectors\<close>

text \<open>
  \<open>asarray\<close> is \<^verbatim>\<open>np.array(p, dtype=np.float32)\<close> on a tuple of integers; \<open>vadd\<close> and
  \<open>vdiv\<close> are the sum of two \<^verbatim>\<open>float32\<close> arrays and the quotient of one by a
  \<^verbatim>\<open>float32\<close> number; \<open>vscale\<close> is the product of a Python float and a \<^verbatim>\<open>float32\<close>
  array, for which numpy first takes the float to \<^verbatim>\<open>float32\<close>; \<open>norm2\<close> is
  \<^verbatim>\<open>np.linalg.norm\<close>, the root of the dot product, on such an array.
\<close>

definition asarray :: "pixel \<Rightarrow> point" where
  "asarray p = (f32 (of_int (fst p)), f32 (of_int (snd p)))"

definition vadd :: "point \<Rightarrow> point \<Rightarrow> point" where
  "vadd p q = (f32 (fst p + fst q), f32 (snd p + snd q))"

definition vscale :: "real \<Rightarrow> point \<Rightarrow> point" where
  "vscale k p = (f32 (f32 k * fst p), f32 (f32 k * snd p))"

definition vdiv :: "point \<Rightarrow> real \<Rightarrow> point" where
  "vdiv p k = (f32 (fst p / k), f32 (snd p / k))"

definition norm2 :: "point \<Rightarrow> real" where
  "norm2 v = f32 (sqrt (f32 (f32 (fst v * fst v) + f32 (snd v * snd v))))"

text \<open>
  \<open>c_int\<close>: the integer fits a C \<^verbatim>\<open>int\<close>. \<open>int32\<close> is the cast \<^verbatim>\<open>np.int32\<close> of a
  \<^verbatim>\<open>float32\<close>: truncation towards zero, and \<open>- 2 ^ 31\<close> where the result does not fit
  (what the cast gives on x86-64).
\<close>

definition c_int :: "int \<Rightarrow> bool" where
  "c_int n = (- (2 ^ 31) \<le> n \<and> n < 2 ^ 31)"

definition int32 :: "real \<Rightarrow> int" where
  "int32 x =
     (let t = (if 0 \<le> x then \<lfloor>x\<rfloor> else \<lceil>x\<rceil>)
      in if c_int t then t else - (2 ^ 31))"

subsection \<open>The containment primitive\<close>

text \<open>
  \<^verbatim>\<open>cv2.pointPolygonTest\<close> is an OpenCV routine, not part of \<^verbatim>\<open>src/\<close>: the methods
  below take it as their first argument \<open>ppt\<close>, a function of the contour and of the
  tuple \<^verbatim>\<open>(px, py)\<close> that \<^verbatim>\<open>_inRealm\<close> passes to it.
\<close>

type_synonym containment = "point list \<Rightarrow> pixel \<Rightarrow> int"

definition inRealm :: "containment \<Rightarrow> pixel \<Rightarrow> point list \<Rightarrow> bool" where
  "inRealm ppt pt realm = (0 \<le> ppt realm pt)"

text \<open>
  Modelled from the spec: \<^verbatim>\<open>cv2.pointPolygonTest\<close> is not part of \<^verbatim>\<open>src/\<close>. The spec
  describes it as the "standard point-in-polygon test over the 4 ordered vertices,
  boundary-inclusive (a point exactly on an edge counts as inside)". With
  \<^verbatim>\<open>measureDist=False\<close> the routine answers \<open>0\<close> on the boundary, \<open>1\<close> inside and \<open>-1\<close>
  outside; inside is decided by the parity of the edges that a ray to the right of the
  point crosses. The point is the \<^verbatim>\<open>float32\<close> pair that the tuple is converted to; the
  test itself is in exact arithmetic. The scenarios below are evaluated with it.
\<close>

definition cross :: "point \<Rightarrow> point \<Rightarrow> point \<Rightarrow> real" where
  "cross a b p = (fst b - fst a) * (snd p - snd a) - (snd b - snd a) * (fst p - fst a)"

definition on_edge :: "point \<Rightarrow> point \<times> point \<Rightarrow> bool" where
  "on_edge p e =
     (case e of (a, b) \<Rightarrow>
        cross a b p = 0 \<and>
        min (fst a) (fst b) \<le> fst p \<and> fst p \<le> max (fst a) (fst b) \<and>
        min (snd a) (snd b) \<le> snd p \<and> snd p \<le> max (snd a) (snd b))"

definition crosses :: "point \<Rightarrow> point \<times> point \<Rightarrow> bool" where
  "crosses p e =
     (case e of (a, b) \<Rightarrow>
        (snd p < snd a) \<noteq> (snd p < snd b) \<and>
        fst p < fst a + (snd p - snd a) * (fst b - fst a) / (snd b - snd a))"

definition edges :: "point list \<Rightarrow> (point \<times> point) list" where
  "edges contour = zip contour (rotate1 contour)"

definition pointPolygonTest :: containment where
  "pointPolygonTest contour pt =
     (let p = asarray pt
      in if list_ex (on_edge p) (edges contour) then 0
         else if odd (length (filter (crosses p) (edges contour))) then 1
         else - 1)"

subsection \<open>\<^verbatim>\<open>_monitor\<close>\<close>

fun monitor_loop :: "(string \<rightharpoonup> int) \<Rightarrow> string list \<Rightarrow> (string \<rightharpoonup> int)" where
  "monitor_loop acc [] = acc"
| "monitor_loop acc (cat # cats) =
     monitor_loop (if acc cat = None then acc(cat \<mapsto> 0) else acc) cats"

definition monitor :: "hitBar \<Rightarrow> string list \<Rightarrow> hitBar" where
  "monitor g categories =
     g\<lparr>Accumulator := monitor_loop (Accumulator g) categories,
       monitoredCatagories := monitoredCatagories g \<union> set categories\<rparr>"

subsection \<open>\<^verbatim>\<open>__init__\<close>\<close>

text \<open>
  \<^verbatim>\<open>imgSize\<close> is a tuple read at the indices 0 and 1 (the demo passes the three numbers of
  an array's shape), or \<^verbatim>\<open>None\<close>: subscripting \<^verbatim>\<open>None\<close> raises \<^verbatim>\<open>TypeError\<close>, a tuple
  that is too short \<^verbatim>\<open>IndexError\<close>.
\<close>

definition default_bar :: "int list option \<Rightarrow> error + (pixel \<times> pixel)" where
  "default_bar isz =
     (case isz of
        None \<Rightarrow> Inl TypeError
      | Some [] \<Rightarrow> Inl IndexError
      | Some [h] \<Rightarrow> Inl IndexError
      | Some (h # w # _) \<Rightarrow> (let mid_row = h div 2 in Inr ((0, mid_row), (w, mid_row))))"

definition bar_ends ::
  "int list option \<Rightarrow> pixel option \<Rightarrow> pixel option \<Rightarrow> error + (pixel \<times> pixel)" where
  "bar_ends isz sp ep =
     (case (sp, ep) of
        (Some s, Some e) \<Rightarrow> Inr (s, e)
      | _ \<Rightarrow> default_bar isz)"

definition init ::
  "int list option \<Rightarrow> pixel option \<Rightarrow> pixel option \<Rightarrow> string \<Rightarrow>
   string list option \<Rightarrow> real \<Rightarrow> int \<Rightarrow> bool \<Rightarrow> error + hitBar" where
  "init isz sp ep nm mon w maxLen vis =
     (case bar_ends isz sp ep of
        Inl e \<Rightarrow> Inl e
      | Inr (s, e) \<Rightarrow>
          (let dx = fst e - fst s;
               dy = snd e - snd s;
               n = asarray (- dy, dx);
               norm_n = norm2 n;
               degenerate = (norm_n < 1 / 10 ^ 6);
               dir = (if degenerate then (0, 0) else vdiv n norm_n);
               A = asarray s;
               B = asarray e;
               offsetIn = vscale (- w) dir;
               offsetOut = vscale w dir;
               g = \<lparr>name = nm, visualize = vis, imgSize = isz,
                    startPoint = s, endPoint = e, maxLength = maxLen, width = w,
                    direction = dir,
                    realmIn = (if degenerate then replicate 4 A
                               else [A, B, vadd B offsetIn, vadd A offsetIn]),
                    realmOut = (if degenerate then replicate 4 B
                                else [A, B, vadd B offsetOut, vadd A offsetOut]),
                    history = [], Accumulator = Map.empty, monitoredCatagories = {},
                    imgOut = None\<rparr>
           in Inr (case mon of
                     None \<Rightarrow> g
                   | Some cs \<Rightarrow> (if cs = [] then g else monitor g cs))))"

subsection \<open>\<^verbatim>\<open>_hasIn\<close>\<close>

definition tag_of :: "(int \<times> int) list \<Rightarrow> int \<Rightarrow> int option" where
  "tag_of entries objID =
     (case map snd (filter (\<lambda>x. fst x = objID) entries) of
        [] \<Rightarrow> None
      | t # _ \<Rightarrow> Some t)"

definition resolve_id :: "int list \<Rightarrow> string list \<Rightarrow> nat \<Rightarrow> int" where
  "resolve_id ids labs i = (if length ids = length labs then ids ! i else int i)"

definition tag_rejected :: "frame \<Rightarrow> string \<Rightarrow> int \<Rightarrow> int option \<Rightarrow> bool" where
  "tag_rejected pastFrame cat objID numInCat =
     (case (numProjection pastFrame, numInCat) of
        (Some np, Some t) \<Rightarrow>
          tag_of (case np cat of None \<Rightarrow> [] | Some l \<Rightarrow> l) objID \<noteq> Some t
      | _ \<Rightarrow> False)"

text \<open>
  The loop over \<^verbatim>\<open>enumerate(labs)\<close>: \<open>i\<close> is the index of the head of the labels still
  to scan. It answers the earlier position that confirms the crossing, if there is one.
\<close>

fun hasIn_scan ::
  "containment \<Rightarrow> hitBar \<Rightarrow> frame \<Rightarrow> string \<Rightarrow> int \<Rightarrow> int option \<Rightarrow> nat \<Rightarrow> string list \<Rightarrow>
   error + pixel option" where
  "hasIn_scan ppt g pastFrame cat objID numInCat i [] = Inr None"
| "hasIn_scan ppt g pastFrame cat objID numInCat i (lb # rest) =
     (if lb = cat \<and> resolve_id (IDs pastFrame) (labels pastFrame) i = objID
      then (if tag_rejected pastFrame cat objID numInCat
            then hasIn_scan ppt g pastFrame cat objID numInCat (Suc i) rest
            else if length (midPoints pastFrame) \<le> i then Inl IndexError
            else (let oldPt = midPoints pastFrame ! i in
                  if inRealm ppt oldPt (realmIn g) then Inr (Some oldPt)
                  else hasIn_scan ppt g pastFrame cat objID numInCat (Suc i) rest))
      else hasIn_scan ppt g pastFrame cat objID numInCat (Suc i) rest)"

text \<open>\<^verbatim>\<open>self.history[-2]\<close>, with the \<^verbatim>\<open>IndexError\<close> the method catches as \<open>None\<close>.\<close>

definition past_frame :: "hitBar \<Rightarrow> frame option" where
  "past_frame g =
     (let h = history g in
      if length h < 2 then None else Some (h ! (length h - 2)))"

text \<open>
  The new direction: half the sum of the direction and the displacement, the displacement
  an array of \<^verbatim>\<open>float32\<close> made from the differences of the integer coordinates.
\<close>

definition blend :: "point \<Rightarrow> pixel \<Rightarrow> pixel \<Rightarrow> point" where
  "blend d pt oldPt =
     vscale (1 / 2) (vadd d (asarray (fst pt - fst oldPt, snd pt - snd oldPt)))"

definition hasIn ::
  "containment \<Rightarrow> hitBar \<Rightarrow> pixel \<Rightarrow> string \<Rightarrow> int \<Rightarrow> int option \<Rightarrow>
   hitBar \<times> (error + bool)" where
  "hasIn ppt g pt cat objID numInCat =
     (case past_frame g of
        None \<Rightarrow> (g, Inr False)
      | Some pastFrame \<Rightarrow>
          (if cat \<notin> set (labels pastFrame) then (g, Inr False)
           else (case hasIn_scan ppt g pastFrame cat objID numInCat 0 (labels pastFrame) of
                   Inl e \<Rightarrow> (g, Inl e)
                 | Inr None \<Rightarrow> (g, Inr False)
                 | Inr (Some oldPt) \<Rightarrow>
                     (g\<lparr>direction := blend (direction g) pt oldPt\<rparr>, Inr True))))"

subsection \<open>\<^verbatim>\<open>update\<close>\<close>

definition current_tag :: "frame \<Rightarrow> string \<Rightarrow> int \<Rightarrow> int option" where
  "current_tag detailedResult cat objID =
     (case numProjection detailedResult of
        None \<Rightarrow> None
      | Some np \<Rightarrow> (case np cat of None \<Rightarrow> None | Some l \<Rightarrow> tag_of l objID))"

text \<open>One pass of the loop over \<^verbatim>\<open>enumerate(midPoints)\<close>.\<close>

definition update_entry ::
  "containment \<Rightarrow> hitBar \<Rightarrow> frame \<Rightarrow> nat \<Rightarrow> pixel \<Rightarrow> hitBar \<times> error option" where
  "update_entry ppt g detailedResult idx pt =
     (if length (labels detailedResult) \<le> idx then (g, Some IndexError)
      else (let cat = labels detailedResult ! idx in
            if cat \<notin> monitoredCatagories g then (g, None)
            else (let objID = resolve_id (IDs detailedResult) (labels detailedResult) idx;
                      numInCat = current_tag detailedResult cat objID in
                  if inRealm ppt pt (realmOut g)
                  then (case hasIn ppt g pt cat objID numInCat of
                          (g', Inl e) \<Rightarrow> (g', Some e)
                        | (g', Inr False) \<Rightarrow> (g', None)
                        | (g', Inr True) \<Rightarrow>
                            (case Accumulator g' cat of
                               None \<Rightarrow> (g', Some KeyError)
                             | Some c \<Rightarrow>
                                 (g'\<lparr>Accumulator := (Accumulator g')(cat \<mapsto> c + 1)\<rparr>, None)))
                  else (g, None))))"

fun update_loop ::
  "containment \<Rightarrow> hitBar \<Rightarrow> frame \<Rightarrow> nat \<Rightarrow> pixel list \<Rightarrow> hitBar \<times> error option" where
  "update_loop ppt g detailedResult idx [] = (g, None)"
| "update_loop ppt g detailedResult idx (pt # pts) =
     (case update_entry ppt g detailedResult idx pt of
        (g', Some e) \<Rightarrow> (g', Some e)
      | (g', None) \<Rightarrow> update_loop ppt g' detailedResult (Suc idx) pts)"

definition push_history :: "int \<Rightarrow> frame list \<Rightarrow> frame \<Rightarrow> frame list" where
  "push_history maxLen h detailedResult =
     (let h' = h @ [detailedResult] in
      if maxLen < int (length h') then tl h' else h')"

definition band :: "hitBar \<Rightarrow> real \<Rightarrow> point list" where
  "band g k =
     (let A = asarray (startPoint g);
          B = asarray (endPoint g);
          offset = vscale k (direction g)
      in [vadd A offset, vadd B offset, B, A])"

definition pts_of :: "point list \<Rightarrow> (int \<times> int) list" where
  "pts_of realm = map (\<lambda>p. (int32 (fst p), int32 (snd p))) realm"

text \<open>The overlay with the two filled realms, blended with the image.\<close>

definition blended :: "hitBar \<Rightarrow> image \<Rightarrow> image" where
  "blended g img =
     (let overlay = FillPoly (FillPoly img (pts_of (realmIn g)) [0, 0, 255, 100])
                      (pts_of (realmOut g)) [255, 0, 0, 100]
      in AddWeighted overlay (4 / 10) img (1 - 4 / 10) 0)"

text \<open>
  The part of \<^verbatim>\<open>update\<close> up to the blend: the history, the two realms recomputed from the
  current geometry, and the blended image.
\<close>

definition prepare :: "hitBar \<Rightarrow> image \<Rightarrow> frame \<Rightarrow> hitBar" where
  "prepare g img detailedResult =
     (let g1 = g\<lparr>history := push_history (maxLength g) (history g) detailedResult\<rparr>;
          g2 = g1\<lparr>realmIn := band g1 (- width g1), realmOut := band g1 (width g1)\<rparr>
      in g2\<lparr>imgOut := Some (blended g2 img)\<rparr>)"

text \<open>
  The centre line, drawn on \<^verbatim>\<open>self.imgOut\<close> when \<^verbatim>\<open>visualize\<close> is set. \<^verbatim>\<open>cv2.line\<close> takes
  the two end points as they are, Python integers, and raises when one of them does not
  fit a C \<^verbatim>\<open>int\<close>.
\<close>

definition fits :: "pixel \<Rightarrow> bool" where
  "fits p = (c_int (fst p) \<and> c_int (snd p))"

definition centre_line :: "hitBar \<Rightarrow> error + hitBar" where
  "centre_line g =
     (if visualize g
      then (case imgOut g of
              None \<Rightarrow> Inl AttributeError
            | Some out \<Rightarrow>
                (if fits (startPoint g) \<and> fits (endPoint g)
                 then Inr (g\<lparr>imgOut := Some (Line out (startPoint g) (endPoint g) [0, 0, 255] 2)\<rparr>)
                 else Inl Cv2Error))
      else Inr g)"

definition update ::
  "containment \<Rightarrow> hitBar \<Rightarrow> image \<Rightarrow> frame \<Rightarrow>
   hitBar \<times> (error + image \<times> (string \<rightharpoonup> int))" where
  "update ppt g img detailedResult =
     (let g3 = prepare g img detailedResult in
      case centre_line g3 of
        Inl e \<Rightarrow> (g3, Inl e)
      | Inr g4 \<Rightarrow>
          (case update_loop ppt g4 detailedResult 0 (midPoints detailedResult) of
             (g5, Some e) \<Rightarrow> (g5, Inl e)
           | (g5, None) \<Rightarrow>
               (case imgOut g5 of
                  None \<Rightarrow> (g5, Inl AttributeError)
                | Some out \<Rightarrow> (g5, Inr (out, Accumulator g5)))))"

text \<open>
  A caller's session with one gate: a sequence of calls, each on the state the last one
  left (also when it raised). \<open>run\<close> is the final state, \<open>trace\<close> what the calls of
  \<^verbatim>\<open>update\<close> returned, \<open>frames_of\<close> the frames they were given.
\<close>

datatype call = Monitor "string list" | Update image frame

fun run :: "containment \<Rightarrow> hitBar \<Rightarrow> call list \<Rightarrow> hitBar" where
  "run ppt g [] = g"
| "run ppt g (Monitor cs # rest) = run ppt (monitor g cs) rest"
| "run ppt g (Update img fr # rest) = run ppt (fst (update ppt g img fr)) rest"

fun trace ::
  "containment \<Rightarrow> hitBar \<Rightarrow> call list \<Rightarrow> (error + image \<times> (string \<rightharpoonup> int)) list" where
  "trace ppt g [] = []"
| "trace ppt g (Monitor cs # rest) = trace ppt (monitor g cs) rest"
| "trace ppt g (Update img fr # rest) =
     snd (update ppt g img fr) # trace ppt (fst (update ppt g img fr)) rest"

fun frames_of :: "call list \<Rightarrow> frame list" where
  "frames_of [] = []"
| "frames_of (Monitor cs # rest) = frames_of rest"
| "frames_of (Update img fr # rest) = fr # frames_of rest"

section \<open>Notions for the properties\<close>

text \<open>
  \<open>drifted g g'\<close>: the state \<open>g'\<close> differs from \<open>g\<close> in the direction and the counters
  at most.
\<close>

definition drifted :: "hitBar \<Rightarrow> hitBar \<Rightarrow> bool" where
  "drifted g g' =
     (name g' = name g \<and> visualize g' = visualize g \<and> imgSize g' = imgSize g \<and>
      startPoint g' = startPoint g \<and> endPoint g' = endPoint g \<and>
      maxLength g' = maxLength g \<and> width g' = width g \<and>
      realmIn g' = realmIn g \<and> realmOut g' = realmOut g \<and> history g' = history g \<and>
      monitoredCatagories g' = monitoredCatagories g \<and> imgOut g' = imgOut g)"

text \<open>
  \<open>counted\<close>: each monitored category has a counter, which the constructor establishes
  and every call keeps. A frame is \<open>aligned\<close> when it has as many labels as positions,
  and a gate is \<open>sound\<close> when it is counted and the frames of its history are aligned.
\<close>

definition counted :: "hitBar \<Rightarrow> bool" where
  "counted g = (monitoredCatagories g \<subseteq> dom (Accumulator g))"

definition aligned :: "frame \<Rightarrow> bool" where
  "aligned fr = (length (labels fr) = length (midPoints fr))"

definition sound :: "hitBar \<Rightarrow> bool" where
  "sound g = (counted g \<and> list_all aligned (history g))"

text \<open>
  The inputs on which the embedding is the code: the ends of the bar and the positions fit
  a C \<^verbatim>\<open>int\<close> and the width is at most \<open>2 ^ 31\<close>, so that no \<^verbatim>\<open>float32\<close> is infinite, and
  the image is a rectangle of at least one pixel, each of three 8-bit channels, which the
  drawing routines of OpenCV accept.
\<close>

definition in_range :: "hitBar \<Rightarrow> bool" where
  "in_range g = (fits (startPoint g) \<and> fits (endPoint g) \<and> \<bar>width g\<bar> \<le> 2 ^ 31)"

definition drawable :: "image \<Rightarrow> bool" where
  "drawable img =
     (case img of
        Array rows \<Rightarrow>
          rows \<noteq> [] \<and>
          list_all (\<lambda>row. row \<noteq> [] \<and> length row = length (hd rows) \<and>
            list_all (\<lambda>px. length px = 3 \<and> list_all (\<lambda>v. 0 \<le> v \<and> v \<le> 255) px) row) rows
      | _ \<Rightarrow> False)"

fun ordinary :: "call \<Rightarrow> bool" where
  "ordinary (Monitor cs) = True"
| "ordinary (Update img fr) = (drawable img \<and> list_all fits (midPoints fr))"

definition plausible :: "int list option \<Rightarrow> pixel option \<Rightarrow> pixel option \<Rightarrow> bool" where
  "plausible isz sp ep =
     ((case isz of None \<Rightarrow> True | Some s \<Rightarrow> list_all c_int s) \<and>
      (case sp of None \<Rightarrow> True | Some p \<Rightarrow> fits p) \<and>
      (case ep of None \<Rightarrow> True | Some p \<Rightarrow> fits p))"

text \<open>
  The degenerate bar: both ends at one point and the zero direction, as the constructor
  leaves a gate whose \<^verbatim>\<open>startPoint\<close> equals its \<^verbatim>\<open>endPoint\<close>.
\<close>

definition degenerate :: "hitBar \<Rightarrow> bool" where
  "degenerate g = (startPoint g = endPoint g \<and> direction g = (0, 0))"








section \<open>A scenario\<close>

text \<open>
  A horizontal bar from \<open>(0, 300)\<close> to \<open>(800, 300)\<close> of half-thickness 50 that monitors
  the category \<open>ball\<close>, as the constructor leaves it, and frames in which a ball with
  identity 0 and tag 0 is above the bar, then below it.
\<close>

definition demo_bar :: hitBar where
  "demo_bar =
     \<lparr>name = ''demoBar'', visualize = True, imgSize = Some [600, 800, 3],
      startPoint = (0, 300), endPoint = (800, 300), maxLength = 50, width = 50,
      direction = (0, 1),
      realmIn = [(0, 300), (800, 300), (800, 250), (0, 250)],
      realmOut = [(0, 300), (800, 300), (800, 350), (0, 350)],
      history = [], Accumulator = [''ball'' \<mapsto> 0], monitoredCatagories = {''ball''},
      imgOut = None\<rparr>"

text \<open>The background of the demo: 600 rows of 800 pixels, each \<open>(200, 200, 200)\<close>.\<close>

definition grey :: image where
  "grey = Array (replicate 600 (replicate 800 [200, 200, 200]))"

definition ball_in :: frame where
  "ball_in =
     \<lparr>labels = [''ball''], IDs = [0], midPoints = [(400, 280)],
      numProjection = Some [''ball'' \<mapsto> [(0, 0)]]\<rparr>"

definition ball_in_untagged :: frame where
  "ball_in_untagged =
     \<lparr>labels = [''ball''], IDs = [0], midPoints = [(400, 280)], numProjection = None\<rparr>"

definition unlabelled :: frame where
  "unlabelled = \<lparr>labels = [], IDs = [], midPoints = [(400, 320)], numProjection = None\<rparr>"

definition ball_no_position :: frame where
  "ball_no_position =
     \<lparr>labels = [''ball''], IDs = [0], midPoints = [], numProjection = None\<rparr>"

definition ball_in_no_ids :: frame where
  "ball_in_no_ids =
     \<lparr>labels = [''ball''], IDs = [], midPoints = [(400, 280)], numProjection = None\<rparr>"



definition ball_out :: frame where
  "ball_out =
     \<lparr>labels = [''ball''], IDs = [0], midPoints = [(400, 320)],
      numProjection = Some [''ball'' \<mapsto> [(0, 0)]]\<rparr>"

definition ball_out_twice :: frame where
  "ball_out_twice =
     \<lparr>labels = [''ball'', ''ball''], IDs = [0, 0], midPoints = [(400, 320), (400, 320)],
      numProjection = Some [''ball'' \<mapsto> [(0, 0)]]\<rparr>"

text \<open>
  A slanted bar from \<open>(0, 0)\<close> to \<open>(3, 4)\<close> of half-thickness 1, as the constructor
  leaves it: its unit normal \<open>(-0.8, 0.6)\<close> is not a pair of \<^verbatim>\<open>float32\<close>.
\<close>

definition slanted_bar :: hitBar where
  "slanted_bar =
     \<lparr>name = ''hitBar'', visualize = True, imgSize = None,
      startPoint = (0, 0), endPoint = (3, 4), maxLength = 50, width = 1,
      direction = (- (13421773 / 16777216), 5033165 / 8388608),
      realmIn = [(0, 0), (3, 4), (15938355 / 4194304, 7130317 / 2097152),
                 (13421773 / 16777216, - (5033165 / 8388608))],
      realmOut = [(0, 0), (3, 4), (9227469 / 4194304, 9646899 / 2097152),
                  (- (13421773 / 16777216), 5033165 / 8388608)],
      history = [], Accumulator = Map.empty, monitoredCatagories = {}, imgOut = None\<rparr>"

text \<open>
  A degenerate bar at \<open>(16777217, 0)\<close>, as the constructor leaves it: 16777217 is not a
  \<^verbatim>\<open>float32\<close>, and the realms are at 16777216. In the frame \<open>ball_beside\<close> the ball is at
  \<open>(16777216, 0)\<close>.
\<close>

definition far_bar :: hitBar where
  "far_bar =
     \<lparr>name = ''hitBar'', visualize = True, imgSize = None,
      startPoint = (16777217, 0), endPoint = (16777217, 0), maxLength = 50, width = 5,
      direction = (0, 0),
      realmIn = [(16777216, 0), (16777216, 0), (16777216, 0), (16777216, 0)],
      realmOut = [(16777216, 0), (16777216, 0), (16777216, 0), (16777216, 0)],
      history = [], Accumulator = [''ball'' \<mapsto> 0], monitoredCatagories = {''ball''},
      imgOut = None\<rparr>"

definition ball_beside :: frame where
  "ball_beside =
     \<lparr>labels = [''ball''], IDs = [0], midPoints = [(16777216, 0)], numProjection = None\<rparr>"

section \<open>Properties\<close>

subsection \<open>Rounding to \<^verbatim>\<open>float32\<close>\<close>

lemma round_even_of_int: "round_even (of_int m) = m"
  by (simp add: round_even_def)


lemma f32_zero: "f32 0 = 0"
  by (simp add: f32_def)


lemma two_powr_int_split:
  fixes k e :: int
  assumes "e \<le> k"
  shows "(2::real) powr of_int k = 2 powr of_int e * 2 ^ nat (k - e)"
proof -
  have "(2::real) powr of_int k = 2 powr (of_int e + real (nat (k - e)))"
    using assms by simp
  also have "\<dots> = 2 powr of_int e * 2 powr real (nat (k - e))"
    by (simp only: powr_add)
  also have "2 powr real (nat (k - e)) = (2::real) ^ nat (k - e)"
    by (simp add: powr_realpow)
  finally show ?thesis .
qed

lemma f32_exact_aux:
  fixes m k :: int
  assumes m: "m \<noteq> 0" and b: "\<bar>m\<bar> < 2 ^ 24" and k: "- 149 \<le> k"
  shows "f32 (of_int m * 2 powr of_int k) = of_int m * 2 powr of_int k"
proof -
  let ?x = "of_int m * 2 powr of_int k :: real"
  have x0: "?x \<noteq> 0" using m by simp
  have ax: "\<bar>?x\<bar> = \<bar>of_int m\<bar> * 2 powr of_int k" by (simp add: abs_mult)
  have am: "0 < \<bar>real_of_int m\<bar>" using m by simp
  have "log 2 \<bar>?x\<bar> = log 2 \<bar>of_int m\<bar> + of_int k"
    unfolding ax using am by (simp add: log_mult log_powr)
  moreover have "log 2 \<bar>real_of_int m\<bar> < 24"
  proof -
    have "\<bar>real_of_int m\<bar> < 2 ^ 24" using b by (metis of_int_abs of_int_less_numeral_power_cancel_iff)
    then have "\<bar>real_of_int m\<bar> < 2 powr 24" by simp
    then show ?thesis using am by (simp add: log_less_iff)
  qed
  ultimately have "log 2 \<bar>?x\<bar> < of_int (24 + k)" by simp
  then have "\<lfloor>log 2 \<bar>?x\<bar>\<rfloor> < 24 + k" by (simp only: floor_less_iff)
  then have e: "expo ?x \<le> k" using k by (simp add: expo_def)
  let ?e = "expo ?x"
  have s: "(2::real) powr of_int k = 2 powr of_int ?e * 2 ^ nat (k - ?e)"
    by (rule two_powr_int_split [OF e])
  have "?x / 2 powr of_int ?e = of_int m * 2 ^ nat (k - ?e)"
    by (subst s) simp
  also have "\<dots> = of_int (m * 2 ^ nat (k - ?e))" by simp
  finally have q: "?x / 2 powr of_int ?e = of_int (m * 2 ^ nat (k - ?e))" .
  have "f32 ?x = of_int (round_even (?x / 2 powr of_int ?e)) * 2 powr of_int ?e"
    using x0 by (simp add: f32_def)
  also have "\<dots> = of_int (m * 2 ^ nat (k - ?e)) * 2 powr of_int ?e"
    by (simp only: q round_even_of_int)
  also have "\<dots> = of_int m * (2 powr of_int ?e * 2 ^ nat (k - ?e))" by simp
  also have "\<dots> = ?x" by (simp only: s [symmetric])
  finally show ?thesis .
qed

lemma f32_exact_repr:
  fixes m k :: int
  assumes b: "\<bar>m\<bar> \<le> 2 ^ 24" and k: "- 149 \<le> k"
  shows "f32 (of_int m * 2 powr of_int k) = of_int m * 2 powr of_int k"
proof (cases "m = 0")
  case True
  then show ?thesis by (simp add: f32_zero)
next
  case False
  show ?thesis
  proof (cases "\<bar>m\<bar> < 2 ^ 24")
    case True
    then show ?thesis using False k by (rule_tac f32_exact_aux) 
  next
    case False
    then have "\<bar>m\<bar> = 16777216" using b by simp
    then have m: "m = 16777216 \<or> m = - 16777216" by linarith
    then have ev: "m = 2 * (m div 2)" by auto
    have h: "\<bar>m div 2\<bar> < 2 ^ 24" "m div 2 \<noteq> 0" using m by auto
    have "of_int m * 2 powr of_int k = of_int (m div 2) * (2 * 2 powr of_int k :: real)"
      by (subst ev) simp
    also have "(2 * 2 powr of_int k :: real) = 2 powr of_int (k + 1)"
      by (simp add: powr_add)
    finally have eq: "of_int m * 2 powr of_int k = of_int (m div 2) * (2 powr of_int (k + 1) :: real)" .
    show ?thesis unfolding eq using h k by (intro f32_exact_aux) simp_all
  qed
qed

lemma f32_exact:
  fixes x :: real and j :: nat
  assumes i: "x * 2 ^ j \<in> \<int>" and b: "\<bar>x * 2 ^ j\<bar> \<le> 2 ^ 24" and j: "j \<le> 149"
  shows "f32 x = x"
proof -
  obtain m :: int where m: "x * 2 ^ j = of_int m" using i by (auto elim: Ints_cases)
  have mb: "\<bar>m\<bar> \<le> 2 ^ 24"
  proof -
    have "\<bar>real_of_int m\<bar> \<le> 2 ^ 24" using b m by simp
    then show ?thesis by (metis of_int_abs of_int_le_numeral_power_cancel_iff)
  qed
  have "(2::real) powr of_int (- int j) = 1 / 2 ^ j"
    by (simp add: powr_minus powr_realpow field_simps)
  then have "of_int m * 2 powr of_int (- int j) = x"
    using m [symmetric] by simp
  then show ?thesis using f32_exact_repr [of m "- int j"] mb j by simp
qed



text \<open>A number of at most 24 bits before and two bits after the binary point is a \<^verbatim>\<open>float32\<close>.\<close>

lemma f32_quarters: "x * 4 \<in> \<int> \<Longrightarrow> \<bar>x * 4\<bar> \<le> 16777216 \<Longrightarrow> f32 x = x"
  using f32_exact [of x 2] by simp

subsection \<open>Evaluating the scenario\<close>

lemmas geometry_defs =
  band_def asarray_def vadd_def vscale_def vdiv_def blend_def inRealm_def pointPolygonTest_def
  edges_def on_edge_def crosses_def cross_def f32_quarters f32_zero

lemmas update_defs =
  update_def centre_line_def fits_def c_int_def prepare_def push_history_def update_entry_def
  resolve_id_def current_tag_def tag_of_def hasIn_def past_frame_def tag_rejected_def Let_def

lemma init_demo_bar:
  "init (Some [600, 800, 3]) (Some (0, 300)) (Some (800, 300)) ''demoBar'' (Some [''ball''])
     50 ml vis = Inr (demo_bar\<lparr>visualize := vis, maxLength := ml\<rparr>)"
  by (simp add: init_def bar_ends_def norm2_def Let_def monitor_def demo_bar_def geometry_defs)

lemma demo_first_update:
  "fst (update pointPolygonTest demo_bar img ball_in) =
     demo_bar\<lparr>history := [ball_in],
       realmIn := [(0, 250), (800, 250), (800, 300), (0, 300)],
       realmOut := [(0, 350), (800, 350), (800, 300), (0, 300)],
       imgOut := Some (Line (blended (demo_bar\<lparr>
         realmIn := [(0, 250), (800, 250), (800, 300), (0, 300)],
         realmOut := [(0, 350), (800, 350), (800, 300), (0, 300)]\<rparr>) img)
         (0, 300) (800, 300) [0, 0, 255] 2)\<rparr>"
  by (simp add: ball_in_def demo_bar_def blended_def update_defs geometry_defs)

lemma demo_untagged_update:
  "fst (update pointPolygonTest demo_bar img ball_in_untagged) =
     demo_bar\<lparr>history := [ball_in_untagged],
       realmIn := [(0, 250), (800, 250), (800, 300), (0, 300)],
       realmOut := [(0, 350), (800, 350), (800, 300), (0, 300)],
       imgOut := Some (Line (blended (demo_bar\<lparr>
         realmIn := [(0, 250), (800, 250), (800, 300), (0, 300)],
         realmOut := [(0, 350), (800, 350), (800, 300), (0, 300)]\<rparr>) img)
         (0, 300) (800, 300) [0, 0, 255] 2)\<rparr>"
  by (simp add: ball_in_untagged_def demo_bar_def blended_def update_defs geometry_defs)

lemma demo_twice_counts:
  "Accumulator (fst (update pointPolygonTest (fst (update pointPolygonTest demo_bar img ball_in))
     img' ball_out_twice)) ''ball'' = Some 2"
  by (simp add: demo_first_update)
    (simp add: ball_in_def ball_out_twice_def demo_bar_def update_defs geometry_defs)

subsection \<open>Monitoring\<close>

lemma monitor_loop_apply:
  "monitor_loop acc cats c =
     (case acc c of Some n \<Rightarrow> Some n | None \<Rightarrow> if c \<in> set cats then Some 0 else None)"
  by (induction cats arbitrary: acc) (auto split: option.splits)

lemma monitor_loop_idem: "monitor_loop (monitor_loop acc cats) cats = monitor_loop acc cats"
  by (rule ext) (simp add: monitor_loop_apply split: option.splits)

text \<open>
  C6. Monitoring is idempotent: monitoring the same names a second time changes nothing
  (neither the monitored set nor the accumulator nor any other field), and monitoring
  never changes the counter of a category that already has one.
\<close>

theorem monitor_idempotent:
  "monitor (monitor g cs) cs = monitor g cs \<and>
   (\<forall>c n. Accumulator g c = Some n \<longrightarrow> Accumulator (monitor g cs) c = Some n)"
  by (simp add: monitor_def monitor_loop_idem monitor_loop_apply)

theorem monitor_idempotent_witness:
  "Accumulator (run pointPolygonTest demo_bar [Update grey ball_in, Update grey ball_out_twice]) ''ball'' = Some 2 \<and>
   Accumulator (monitor (run pointPolygonTest demo_bar [Update grey ball_in, Update grey ball_out_twice])
     [''ball'']) ''ball'' = Some 2 \<and>
   monitor (monitor (run pointPolygonTest demo_bar [Update grey ball_in, Update grey ball_out_twice]) [''ball''])
     [''ball''] =
   monitor (run pointPolygonTest demo_bar [Update grey ball_in, Update grey ball_out_twice]) [''ball'']"
  using monitor_idempotent [of "run pointPolygonTest demo_bar [Update grey ball_in, Update grey ball_out_twice]"
      "[''ball'']"] demo_twice_counts [of grey grey]
  by simp

subsection \<open>What a call leaves unchanged\<close>

lemma drifted_refl: "drifted g g"
  by (simp add: drifted_def)

lemma drifted_trans: "drifted g g' \<Longrightarrow> drifted g' g'' \<Longrightarrow> drifted g g''"
  by (simp add: drifted_def)

lemma drifted_direction: "drifted g g' \<Longrightarrow> drifted g (g'\<lparr>direction := d\<rparr>)"
  by (simp add: drifted_def)

lemma drifted_Accumulator: "drifted g g' \<Longrightarrow> drifted g (g'\<lparr>Accumulator := a\<rparr>)"
  by (simp add: drifted_def)

lemma hasIn_state: "drifted g (fst (hasIn ppt g pt cat objID numInCat))"
  by (simp add: hasIn_def Let_def drifted_refl drifted_direction
      split: sum.split option.split)

lemma update_entry_state: "drifted g (fst (update_entry ppt g fr idx pt))"
proof -
  let ?cat = "labels fr ! idx"
  let ?id = "resolve_id (IDs fr) (labels fr) idx"
  let ?h = "hasIn ppt g pt ?cat ?id (current_tag fr ?cat ?id)"
  obtain g' r where h: "?h = (g', r)" by (cases ?h)
  have d: "drifted g g'"
    using hasIn_state [of g ppt pt ?cat ?id "current_tag fr ?cat ?id"] h by simp
  show ?thesis
    unfolding update_entry_def Let_def h
    by (simp add: drifted_refl d drifted_Accumulator split: sum.split bool.split option.split)
qed

lemma update_loop_state: "drifted g (fst (update_loop ppt g fr idx pts))"
proof (induction pts arbitrary: g idx)
  case Nil
  show ?case by (simp add: drifted_refl)
next
  case (Cons pt pts)
  show ?case
  proof (cases "update_entry ppt g fr idx pt")
    case (Pair g' r)
    then have 1: "drifted g g'" using update_entry_state [of g ppt fr idx pt] by simp
    show ?thesis
    proof (cases r)
      case None
      with Pair 1 Cons.IH [of g' "Suc idx"] show ?thesis
        by (simp add: drifted_trans)
    next
      case (Some e)
      with Pair 1 show ?thesis by simp
    qed
  qed
qed

lemma prepare_fields:
  "history (prepare g img fr) = push_history (maxLength g) (history g) fr"
  "maxLength (prepare g img fr) = maxLength g"
  "direction (prepare g img fr) = direction g"
  "Accumulator (prepare g img fr) = Accumulator g"
  "monitoredCatagories (prepare g img fr) = monitoredCatagories g"
  "startPoint (prepare g img fr) = startPoint g"
  "endPoint (prepare g img fr) = endPoint g"
  "width (prepare g img fr) = width g"
  "visualize (prepare g img fr) = visualize g"
  "realmIn (prepare g img fr) = band g (- width g)"
  "realmOut (prepare g img fr) = band g (width g)"
  by (simp_all add: prepare_def Let_def band_def)

lemma centre_line_state: "centre_line g = Inr g' \<Longrightarrow> g' = g\<lparr>imgOut := imgOut g'\<rparr>"
  by (auto simp: centre_line_def split: if_splits option.splits)

lemma update_state:
  "fst (update ppt g img fr) = prepare g img fr \<or>
   (\<exists>g4. centre_line (prepare g img fr) = Inr g4 \<and>
      fst (update ppt g img fr) = fst (update_loop ppt g4 fr 0 (midPoints fr)))"
  by (cases "centre_line (prepare g img fr)")
    (simp_all add: update_def Let_def split: prod.split option.split)

lemma update_fields:
  "history (fst (update ppt g img fr)) = push_history (maxLength g) (history g) fr"
  "maxLength (fst (update ppt g img fr)) = maxLength g"
  "monitoredCatagories (fst (update ppt g img fr)) = monitoredCatagories g"
  "startPoint (fst (update ppt g img fr)) = startPoint g"
  "endPoint (fst (update ppt g img fr)) = endPoint g"
  "width (fst (update ppt g img fr)) = width g"
  "visualize (fst (update ppt g img fr)) = visualize g"
  "realmIn (fst (update ppt g img fr)) = band g (- width g)"
  "realmOut (fst (update ppt g img fr)) = band g (width g)"
proof -
  let ?p = "prepare g img fr" and ?u = "fst (update ppt g img fr)"
  have "name ?u = name ?p \<and> visualize ?u = visualize ?p \<and> imgSize ?u = imgSize ?p \<and>
      startPoint ?u = startPoint ?p \<and> endPoint ?u = endPoint ?p \<and>
      maxLength ?u = maxLength ?p \<and> width ?u = width ?p \<and>
      realmIn ?u = realmIn ?p \<and> realmOut ?u = realmOut ?p \<and> history ?u = history ?p \<and>
      monitoredCatagories ?u = monitoredCatagories ?p"
  proof (rule disjE [OF update_state [of ppt g img fr]])
    assume "?u = ?p"
    then show ?thesis by simp
  next
    assume "\<exists>g4. centre_line ?p = Inr g4 \<and> ?u = fst (update_loop ppt g4 fr 0 (midPoints fr))"
    then obtain g4 where c: "centre_line ?p = Inr g4"
      and u: "?u = fst (update_loop ppt g4 fr 0 (midPoints fr))" by blast
    have 4: "g4 = ?p\<lparr>imgOut := imgOut g4\<rparr>" by (rule centre_line_state [OF c])
    have "drifted g4 ?u" unfolding u by (rule update_loop_state)
    moreover have "name g4 = name ?p \<and> visualize g4 = visualize ?p \<and> imgSize g4 = imgSize ?p \<and>
      startPoint g4 = startPoint ?p \<and> endPoint g4 = endPoint ?p \<and>
      maxLength g4 = maxLength ?p \<and> width g4 = width ?p \<and>
      realmIn g4 = realmIn ?p \<and> realmOut g4 = realmOut ?p \<and> history g4 = history ?p \<and>
      monitoredCatagories g4 = monitoredCatagories ?p"
      by (subst 4, simp)+
    ultimately show ?thesis by (simp add: drifted_def)
  qed
  then show
    "history (fst (update ppt g img fr)) = push_history (maxLength g) (history g) fr"
    "maxLength (fst (update ppt g img fr)) = maxLength g"
    "monitoredCatagories (fst (update ppt g img fr)) = monitoredCatagories g"
    "startPoint (fst (update ppt g img fr)) = startPoint g"
    "endPoint (fst (update ppt g img fr)) = endPoint g"
    "width (fst (update ppt g img fr)) = width g"
    "visualize (fst (update ppt g img fr)) = visualize g"
    "realmIn (fst (update ppt g img fr)) = band g (- width g)"
    "realmOut (fst (update ppt g img fr)) = band g (width g)"
    by (simp_all add: prepare_fields)
qed

lemma monitor_fields:
  "history (monitor g cs) = history g"
  "maxLength (monitor g cs) = maxLength g"
  "direction (monitor g cs) = direction g"
  "startPoint (monitor g cs) = startPoint g"
  "endPoint (monitor g cs) = endPoint g"
  "width (monitor g cs) = width g"
  by (simp_all add: monitor_def)

lemma run_maxLength: "maxLength (run ppt g calls) = maxLength g"
  by (induction ppt g calls rule: run.induct) (simp_all add: update_fields monitor_fields)

lemma init_fields:
  assumes "init isz sp ep nm mon w ml vis = Inr g"
  shows "history g = []" and "maxLength g = ml" and "width g = w" and "visualize g = vis"
    and "monitoredCatagories g \<subseteq> dom (Accumulator g)"
  using assms
  by (auto simp: init_def Let_def monitor_def monitor_loop_apply split: sum.splits prod.splits option.splits if_splits)

lemma push_history_bounded:
  "0 \<le> ml \<Longrightarrow> int (length h) \<le> ml \<Longrightarrow> int (length (push_history ml h fr)) \<le> ml"
  by (auto simp: push_history_def Let_def)

lemma run_history:
  "0 \<le> maxLength g \<Longrightarrow> int (length (history g)) \<le> maxLength g \<Longrightarrow>
   history (run ppt g calls) =
     drop (length (history g @ frames_of calls) - nat (maxLength g)) (history g @ frames_of calls)"
proof (induction ppt g calls rule: run.induct)
  case (1 ppt g)
  then show ?case by simp
next
  case (2 ppt g cs rest)
  then show ?case by (simp add: monitor_fields)
next
  case (3 ppt g img fr rest)
  let ?g' = "fst (update ppt g img fr)"
  have b: "int (length (history ?g')) \<le> maxLength ?g'"
    using 3(2,3) by (simp add: update_fields push_history_bounded)
  have "history (run ppt ?g' rest) =
     drop (length (history ?g' @ frames_of rest) - nat (maxLength g)) (history ?g' @ frames_of rest)"
    using 3 b by (simp add: update_fields)
  also have "\<dots> = drop (length (history g @ fr # frames_of rest) - nat (maxLength g))
      (history g @ fr # frames_of rest)"
  proof (cases "maxLength g < int (length (history g)) + 1")
    case True
    then have eq: "length (history g) = nat (maxLength g)" using 3(2,3) by linarith
    have "history ?g' = tl (history g @ [fr])"
      using True by (simp add: update_fields push_history_def Let_def)
    then have h: "history ?g' @ frames_of rest = drop 1 (history g @ fr # frames_of rest)"
      by (cases "history g") simp_all
    have "drop (length (drop 1 (history g @ fr # frames_of rest)) - nat (maxLength g))
            (drop 1 (history g @ fr # frames_of rest)) =
          drop (length (history g @ fr # frames_of rest) - nat (maxLength g))
            (history g @ fr # frames_of rest)"
      using eq by (simp only: drop_drop length_drop) simp
    then show ?thesis unfolding h .
  next
    case False
    then have "history ?g' = history g @ [fr]"
      by (simp add: update_fields push_history_def Let_def)
    then show ?thesis by simp
  qed
  finally show ?case by simp
qed

subsection \<open>The history buffer\<close>

lemma init_total:
  "bar_ends isz sp ep = Inr b \<Longrightarrow> \<exists>g. init isz sp ep nm mon w ml vis = Inr g"
  by (cases b) (simp add: init_def Let_def)

text \<open>
  C5, as amended. For a gate constructed with a history bound \<open>maxLength \<ge> 0\<close> and every
  finite sequence of calls, the history holds at most \<open>maxLength\<close> frames, and they are
  the most recent ones in arrival order: the oldest frame is the one evicted. (With a
  negative bound the history is empty after every call, which is longer than the bound.)
\<close>

theorem history_bounded_fifo:
  assumes "init isz sp ep nm mon w ml vis = Inr g" and "0 \<le> ml"
  shows "int (length (history (run ppt g calls))) \<le> ml \<and>
         history (run ppt g calls) = drop (length (frames_of calls) - nat ml) (frames_of calls)"
proof -
  have h: "history g = []" and m: "maxLength g = ml"
    using assms(1) by (simp_all add: init_fields)
  have eq: "history (run ppt g calls) = drop (length (frames_of calls) - nat ml) (frames_of calls)"
    using run_history [of g ppt calls] h m assms(2) by simp
  show ?thesis unfolding eq using assms(2) by simp
qed

theorem history_bounded_fifo_witness:
  "init (Some [600, 800, 3]) (Some (0, 300)) (Some (800, 300)) ''demoBar'' (Some [''ball''])
     50 1 True = Inr (demo_bar\<lparr>visualize := True, maxLength := 1\<rparr>) \<and>
   (0::int) \<le> 1 \<and>
   int (length (history (run pointPolygonTest (demo_bar\<lparr>visualize := True, maxLength := 1\<rparr>)
     [Update grey ball_in, Update grey ball_out]))) \<le> 1 \<and>
   history (run pointPolygonTest (demo_bar\<lparr>visualize := True, maxLength := 1\<rparr>)
     [Update grey ball_in, Update grey ball_out]) = [ball_out]"
  using history_bounded_fifo [OF init_demo_bar [of 1 True], where ppt = pointPolygonTest
      and calls = "[Update grey ball_in, Update grey ball_out]"]
    init_demo_bar [of 1 True]
  by simp

theorem history_bound_counterexample:
  "\<exists>g. init (Some [600, 800, 3]) None None ''hitBar'' None 5 (- 1) True = Inr g \<and>
       \<not> int (length (history (run pointPolygonTest g [Update grey ball_in]))) \<le> maxLength g"
proof -
  have "bar_ends (Some [600, 800, 3]) None None = Inr ((0, 300), (800, 300))"
    by (simp add: bar_ends_def default_bar_def)
  then obtain g where g: "init (Some [600, 800, 3]) None None ''hitBar'' None 5 (- 1) True = Inr g"
    using init_total by blast
  have "maxLength g = - 1" using g by (simp add: init_fields)
  then have "\<not> int (length (history (run pointPolygonTest g [Update grey ball_in])))
      \<le> maxLength g" by simp
  with g show ?thesis by blast
qed

subsection \<open>Construction\<close>

lemma init_ends:
  "init isz sp ep nm mon w ml vis = Inr g \<Longrightarrow> bar_ends isz sp ep = Inr (s, e) \<Longrightarrow>
   startPoint g = s \<and> endPoint g = e"
  by (auto simp: init_def Let_def monitor_def split: option.splits if_splits)

text \<open>
  C10. When exactly one of \<^verbatim>\<open>startPoint\<close> and \<^verbatim>\<open>endPoint\<close> is supplied, the constructor
  behaves as if neither were: the supplied point is ignored, the bar is the horizontal
  line from \<open>(0, midRow)\<close> to \<open>(imgWidth, midRow)\<close> of the reference size, and without
  a reference size the constructor raises.
\<close>

theorem init_single_endpoint:
  assumes "(sp = None) \<noteq> (ep = None)"
  shows "init isz sp ep nm mon w ml vis = init isz None None nm mon w ml vis \<and>
         init None sp ep nm mon w ml vis = Inl TypeError \<and>
         (\<exists>g. init (Some (h # wd # rest)) sp ep nm mon w ml vis = Inr g \<and>
              startPoint g = (0, h div 2) \<and> endPoint g = (wd, h div 2))"
proof -
  have b: "bar_ends isz' sp ep = default_bar isz'" for isz'
    using assms by (cases sp; cases ep) (simp_all add: bar_ends_def)
  have n: "bar_ends isz' None None = default_bar isz'" for isz'
    by (simp add: bar_ends_def)
  have 1: "init isz sp ep nm mon w ml vis = init isz None None nm mon w ml vis"
    by (simp add: init_def b n)
  have 2: "init None sp ep nm mon w ml vis = Inl TypeError"
    by (simp add: init_def b default_bar_def)
  have d: "bar_ends (Some (h # wd # rest)) sp ep = Inr ((0, h div 2), (wd, h div 2))"
    by (simp add: b default_bar_def Let_def)
  obtain g where g: "init (Some (h # wd # rest)) sp ep nm mon w ml vis = Inr g"
    using init_total [OF d] by blast
  have "startPoint g = (0, h div 2) \<and> endPoint g = (wd, h div 2)"
    using init_ends [OF g d] by simp
  with 1 2 g show ?thesis by blast
qed

theorem init_single_endpoint_witness:
  "((Some (5, 7) = (None :: (int \<times> int) option)) \<noteq> ((None :: (int \<times> int) option) = None)) \<and>
   init (Some [600, 800, 3]) (Some (5, 7)) None ''hitBar'' None 5 50 True =
     init (Some [600, 800, 3]) None None ''hitBar'' None 5 50 True \<and>
   init None (Some (5, 7)) None ''hitBar'' None 5 50 True = Inl TypeError \<and>
   (\<exists>g. init (Some [600, 800, 3]) (Some (5, 7)) None ''hitBar'' None 5 50 True = Inr g \<and>
        startPoint g = (0, 300) \<and> endPoint g = (800, 300))"
proof -
  have h: "(Some (5, 7) = (None :: (int \<times> int) option)) \<noteq> ((None :: (int \<times> int) option) = None)"
    by simp
  have d: "(600::int) div 2 = 300" by simp
  show ?thesis
    using h init_single_endpoint [OF h, where isz = "Some [600, 800, 3]" and h = 600
        and wd = 800 and rest = "[3]" and nm = "''hitBar''" and mon = None and w = 5
        and ml = 50 and vis = True]
    unfolding d by blast
qed

subsection \<open>The disambiguator tag in \<^verbatim>\<open>_hasIn\<close>\<close>

lemma tag_rejected_untagged:
  "numProjection pastFrame = None \<Longrightarrow> tag_rejected pastFrame cat objID tg = False"
  by (simp add: tag_rejected_def)

lemma hasIn_scan_untagged:
  "numProjection pastFrame = None \<Longrightarrow>
   hasIn_scan ppt g pastFrame cat objID (Some t) i rest = hasIn_scan ppt g pastFrame cat objID None i rest"
  by (induction rest arbitrary: i) (simp_all add: tag_rejected_untagged Let_def)

lemma hasIn_scan_tagged:
  "hasIn_scan ppt g pastFrame cat objID (Some t) i rest = Inr (Some oldPt) \<Longrightarrow>
   numProjection pastFrame = Some np \<Longrightarrow>
   \<exists>l. np cat = Some l \<and> tag_of l objID = Some t"
proof (induction rest arbitrary: i)
  case Nil
  then show ?case by simp
next
  case (Cons lb rest)
  show ?case
  proof (cases "lb = cat \<and> resolve_id (IDs pastFrame) (labels pastFrame) i = objID
      \<and> \<not> tag_rejected pastFrame cat objID (Some t)")
    case True
    then have "tag_of (case np cat of None \<Rightarrow> [] | Some l \<Rightarrow> l) objID = Some t"
      using Cons.prems(2) by (simp add: tag_rejected_def)
    then show ?thesis by (cases "np cat") (simp_all add: tag_of_def)
  next
    case False
    then have "hasIn_scan ppt g pastFrame cat objID (Some t) (Suc i) rest = Inr (Some oldPt)"
      using Cons.prems(1) by (auto split: if_splits)
    then show ?thesis using Cons.IH Cons.prems(2) by blast
  qed
qed

text \<open>
  C3, as amended. When the current entry has a tag, \<^verbatim>\<open>_hasIn\<close> confirms a match only if
  the preceding frame either records that same tag for the identity (the first tag listed
  for it under the category) in its side mapping, or has no side mapping at all: with a
  side mapping that lacks the tag the match is rejected, and without a side mapping the
  tag is not compared and \<^verbatim>\<open>_hasIn\<close> answers as it does for an entry without a tag.
\<close>

theorem hasIn_tag_check:
  "(snd (hasIn ppt g pt cat objID (Some t)) = Inr True \<longrightarrow>
      (\<exists>pastFrame. past_frame g = Some pastFrame \<and>
         (case numProjection pastFrame of
            None \<Rightarrow> True
          | Some np \<Rightarrow> (\<exists>l. np cat = Some l \<and> tag_of l objID = Some t)))) \<and>
   (\<forall>pastFrame. past_frame g = Some pastFrame \<and> numProjection pastFrame = None \<longrightarrow>
      hasIn ppt g pt cat objID (Some t) = hasIn ppt g pt cat objID None)"
proof (intro conjI impI allI)
  assume a: "snd (hasIn ppt g pt cat objID (Some t)) = Inr True"
  then obtain pastFrame where p: "past_frame g = Some pastFrame"
    by (cases "past_frame g") (simp_all add: hasIn_def)
  have "case numProjection pastFrame of
            None \<Rightarrow> True
          | Some np \<Rightarrow> (\<exists>l. np cat = Some l \<and> tag_of l objID = Some t)"
  proof (cases "numProjection pastFrame")
    case None
    then show ?thesis by simp
  next
    case (Some np)
    from a p obtain oldPt where
      "hasIn_scan ppt g pastFrame cat objID (Some t) 0 (labels pastFrame) = Inr (Some oldPt)"
      by (auto simp: hasIn_def split: if_splits sum.splits option.splits)
    from hasIn_scan_tagged [OF this Some] Some show ?thesis by simp
  qed
  with p show "\<exists>pastFrame. past_frame g = Some pastFrame \<and>
         (case numProjection pastFrame of
            None \<Rightarrow> True
          | Some np \<Rightarrow> (\<exists>l. np cat = Some l \<and> tag_of l objID = Some t))"
    by blast
next
  fix pastFrame
  assume "past_frame g = Some pastFrame \<and> numProjection pastFrame = None"
  then show "hasIn ppt g pt cat objID (Some t) = hasIn ppt g pt cat objID None"
    by (simp add: hasIn_def hasIn_scan_untagged)
qed

theorem hasIn_tag_check_witness:
  "snd (hasIn pointPolygonTest (prepare (fst (update pointPolygonTest demo_bar grey ball_in)) grey ball_out)
     (400, 320) ''ball'' 0 (Some 0)) = Inr True \<and>
   (\<exists>pastFrame. past_frame (prepare (fst (update pointPolygonTest demo_bar grey ball_in)) grey ball_out)
        = Some pastFrame \<and>
      (case numProjection pastFrame of
         None \<Rightarrow> True
       | Some np \<Rightarrow> (\<exists>l. np ''ball'' = Some l \<and> tag_of l 0 = Some 0))) \<and>
   past_frame (prepare (fst (update pointPolygonTest demo_bar grey ball_in_untagged)) grey ball_out)
     = Some ball_in_untagged \<and>
   numProjection ball_in_untagged = None \<and>
   hasIn pointPolygonTest (prepare (fst (update pointPolygonTest demo_bar grey ball_in_untagged)) grey ball_out)
     (400, 320) ''ball'' 0 (Some 0) =
   hasIn pointPolygonTest (prepare (fst (update pointPolygonTest demo_bar grey ball_in_untagged)) grey ball_out)
     (400, 320) ''ball'' 0 None"
proof -
  let ?G = "prepare (fst (update pointPolygonTest demo_bar grey ball_in)) grey ball_out"
  let ?U = "prepare (fst (update pointPolygonTest demo_bar grey ball_in_untagged)) grey ball_out"
  have 1: "snd (hasIn pointPolygonTest ?G (400, 320) ''ball'' 0 (Some 0)) = Inr True"
    by (simp add: demo_first_update)
      (simp add: ball_in_def ball_out_def demo_bar_def update_defs geometry_defs)
  have 2: "past_frame ?U = Some ball_in_untagged"
    by (simp add: demo_untagged_update) (simp add: demo_bar_def update_defs)
  have 3: "numProjection ball_in_untagged = None"
    by (simp add: ball_in_untagged_def)
  show ?thesis
    using 1 2 3 hasIn_tag_check [of pointPolygonTest ?G "(400, 320)" "''ball''" 0 0]
      hasIn_tag_check [of pointPolygonTest ?U "(400, 320)" "''ball''" 0 0]
    by blast
qed

text \<open>
  The claim as stated fails: the earlier frame has no side mapping, the current entry has
  the tag 0, and the crossing is confirmed and counted.
\<close>

theorem untagged_past_frame_accepted:
  "past_frame (prepare (fst (update pointPolygonTest demo_bar grey ball_in_untagged)) grey ball_out)
     = Some ball_in_untagged \<and>
   numProjection ball_in_untagged = None \<and>
   current_tag ball_out ''ball'' 0 = Some 0 \<and>
   snd (hasIn pointPolygonTest (prepare (fst (update pointPolygonTest demo_bar grey ball_in_untagged)) grey ball_out)
     (400, 320) ''ball'' 0 (Some 0)) = Inr True \<and>
   Accumulator (fst (update pointPolygonTest (fst (update pointPolygonTest demo_bar grey ball_in_untagged)) grey ball_out)) ''ball''
     = Some 1"
  apply (simp add: demo_untagged_update)
  apply (simp add: ball_in_untagged_def ball_out_def demo_bar_def update_defs geometry_defs)
  done

subsection \<open>Which calls raise\<close>

lemma hasIn_scan_ok:
  "aligned pastFrame \<Longrightarrow> i + length rest = length (labels pastFrame) \<Longrightarrow>
   \<exists>r. hasIn_scan ppt g pastFrame cat objID tg i rest = Inr r"
proof (induction rest arbitrary: i)
  case Nil
  then show ?case by simp
next
  case (Cons lb rest)
  have i: "i < length (midPoints pastFrame)"
    using Cons.prems by (simp add: aligned_def)
  have "\<exists>r. hasIn_scan ppt g pastFrame cat objID tg (Suc i) rest = Inr r"
    using Cons.IH [of "Suc i"] Cons.prems by simp
  then show ?case using i by (auto simp: Let_def)
qed

lemma past_frame_in_history: "past_frame g = Some p \<Longrightarrow> p \<in> set (history g)"
  by (auto simp: past_frame_def Let_def split: if_splits)

lemma hasIn_ok:
  assumes "list_all aligned (history g)"
  shows "\<exists>b. snd (hasIn ppt g pt cat objID tg) = Inr b"
proof (cases "past_frame g")
  case None
  then have "snd (hasIn ppt g pt cat objID tg) = Inr False" by (simp add: hasIn_def)
  then show ?thesis by blast
next
  case (Some p)
  then have "aligned p"
    using assms past_frame_in_history by (auto simp: list_all_iff)
  then obtain r where "hasIn_scan ppt g p cat objID tg 0 (labels p) = Inr r"
    using hasIn_scan_ok [of p 0 "labels p" ppt g cat objID tg] by auto
  then have "snd (hasIn ppt g pt cat objID tg) = Inr False \<or>
      snd (hasIn ppt g pt cat objID tg) = Inr True"
    using Some by (cases r) (simp_all add: hasIn_def)
  then show ?thesis by blast
qed

lemma hasIn_Accumulator: "Accumulator (fst (hasIn ppt g pt cat objID tg)) = Accumulator g"
  by (simp add: hasIn_def split: option.split sum.split)

text \<open>The monitored categories keep their counters, whatever the frame.\<close>

lemma update_entry_counted:
  assumes "counted g"
  shows "counted (fst (update_entry ppt g fr idx pt))"
proof -
  let ?cat = "labels fr ! idx"
  let ?id = "resolve_id (IDs fr) (labels fr) idx"
  let ?h = "hasIn ppt g pt ?cat ?id (current_tag fr ?cat ?id)"
  obtain g' r where h: "?h = (g', r)" by (cases ?h)
  have d: "drifted g g'"
    using hasIn_state [of g ppt pt ?cat ?id "current_tag fr ?cat ?id"] h by simp
  have a: "Accumulator g' = Accumulator g"
    using hasIn_Accumulator [of ppt g pt ?cat ?id "current_tag fr ?cat ?id"] h by simp
  have c: "counted g'" using assms d a by (simp add: counted_def drifted_def)
  then have c': "counted (g'\<lparr>Accumulator := (Accumulator g')(k \<mapsto> v)\<rparr>)" for k v
    by (auto simp: counted_def)
  show ?thesis
    unfolding update_entry_def Let_def h
    using assms c c' by (simp split: sum.split bool.split option.split)
qed

lemma update_loop_counted:
  "counted g \<Longrightarrow> counted (fst (update_loop ppt g fr idx pts))"
proof (induction pts arbitrary: g idx)
  case Nil
  then show ?case by simp
next
  case (Cons pt pts)
  obtain g' r where e: "update_entry ppt g fr idx pt = (g', r)"
    by (cases "update_entry ppt g fr idx pt")
  have c: "counted g'" using update_entry_counted [OF Cons.prems, of ppt fr idx pt] e by simp
  show ?case using e c Cons.IH [of g' "Suc idx"] by (cases r) simp_all
qed

lemma centre_line_counted: "centre_line g = Inr g' \<Longrightarrow> counted g \<Longrightarrow> counted g'"
  using centre_line_state [of g g'] by (metis counted_def hitBar.select_convs(12,13) hitBar.surjective hitBar.update_convs(14))

lemma update_counted: "counted g \<Longrightarrow> counted (fst (update ppt g img fr))"
proof -
  assume c: "counted g"
  then have p: "counted (prepare g img fr)" by (simp add: counted_def prepare_fields)
  show ?thesis
  proof (rule disjE [OF update_state [of ppt g img fr]])
    assume "fst (update ppt g img fr) = prepare g img fr"
    then show ?thesis using p by simp
  next
    assume "\<exists>g4. centre_line (prepare g img fr) = Inr g4 \<and>
      fst (update ppt g img fr) = fst (update_loop ppt g4 fr 0 (midPoints fr))"
    then show ?thesis using p centre_line_counted update_loop_counted by metis
  qed
qed

lemma monitor_counted: "counted g \<Longrightarrow> counted (monitor g cs)"
  by (auto simp: counted_def monitor_def monitor_loop_apply split: option.splits)

lemma init_counted: "init isz sp ep nm mon w ml vis = Inr g \<Longrightarrow> counted g"
  using init_fields(5) [of isz sp ep nm mon w ml vis g] by (simp add: counted_def)


text \<open>With aligned frames no entry raises.\<close>

lemma update_entry_ok:
  assumes "sound g" and "idx < length (labels fr)"
  shows "snd (update_entry ppt g fr idx pt) = None"
proof -
  let ?cat = "labels fr ! idx"
  let ?id = "resolve_id (IDs fr) (labels fr) idx"
  let ?h = "hasIn ppt g pt ?cat ?id (current_tag fr ?cat ?id)"
  obtain g' r where h: "?h = (g', r)" by (cases ?h)
  have a: "Accumulator g' = Accumulator g"
    using hasIn_Accumulator [of ppt g pt ?cat ?id "current_tag fr ?cat ?id"] h by simp
  obtain b where b: "r = Inr b"
    using hasIn_ok [of g ppt pt ?cat ?id "current_tag fr ?cat ?id"] assms(1) h
    by (auto simp: sound_def)
  show ?thesis
  proof (cases "?cat \<in> monitoredCatagories g \<and> inRealm ppt pt (realmOut g) \<and> b")
    case True
    then obtain c where c: "Accumulator g' ?cat = Some c"
      using assms(1) a by (auto simp: sound_def counted_def)
    show ?thesis using True assms(2) h b c by (simp add: update_entry_def Let_def)
  next
    case False
    then show ?thesis using assms(2) h b by (auto simp: update_entry_def Let_def)
  qed
qed

lemma update_entry_sound: "sound g \<Longrightarrow> sound (fst (update_entry ppt g fr idx pt))"
  using update_entry_counted [of g ppt fr idx pt] update_entry_state [of g ppt fr idx pt]
  by (simp add: sound_def drifted_def)

lemma update_loop_ok:
  "sound g \<Longrightarrow> idx + length pts \<le> length (labels fr) \<Longrightarrow>
   snd (update_loop ppt g fr idx pts) = None"
proof (induction pts arbitrary: g idx)
  case Nil
  then show ?case by simp
next
  case (Cons pt pts)
  obtain g' where e: "update_entry ppt g fr idx pt = (g', None)" and s: "sound g'"
    using update_entry_ok [of g idx fr ppt pt] update_entry_sound [of g ppt fr idx pt] Cons.prems
    by (cases "update_entry ppt g fr idx pt") auto
  show ?case using Cons.IH [of g' "Suc idx"] Cons.prems s e by simp
qed

lemma set_push_history: "set (push_history ml h fr) \<subseteq> set h \<union> {fr}"
  by (cases h) (auto simp: push_history_def Let_def)

lemma prepare_sound: "sound g \<Longrightarrow> aligned fr \<Longrightarrow> sound (prepare g img fr)"
  using set_push_history [of "maxLength g" "history g" fr]
  by (auto simp: sound_def counted_def prepare_fields list_all_iff)

lemma update_sound: "sound g \<Longrightarrow> aligned fr \<Longrightarrow> sound (fst (update ppt g img fr))"
  using set_push_history [of "maxLength g" "history g" fr] update_counted [of g ppt img fr]
  by (auto simp: sound_def update_fields list_all_iff)

lemma centre_line_ok:
  assumes "fits (startPoint g)" and "fits (endPoint g)" and "imgOut g \<noteq> None"
  shows "\<exists>g'. centre_line g = Inr g' \<and> imgOut g' \<noteq> None"
  using assms by (auto simp: centre_line_def)

text \<open>
  With \<^verbatim>\<open>visualize\<close> set, a bar with an end that does not fit a C \<^verbatim>\<open>int\<close> makes every
  call of \<^verbatim>\<open>update\<close> raise in \<^verbatim>\<open>cv2.line\<close>, before the loop.
\<close>

lemma update_raises_beyond_c_int:
  assumes "visualize g" and "\<not> (fits (startPoint g) \<and> fits (endPoint g))"
  shows "snd (update ppt g img fr) = Inl Cv2Error"
  using assms by (auto simp: update_def centre_line_def prepare_def Let_def)

lemma in_range_update: "in_range (fst (update ppt g img fr)) = in_range g"
  by (simp add: in_range_def update_fields)

lemma in_range_monitor: "in_range (monitor g cs) = in_range g"
  by (simp add: in_range_def monitor_fields)

lemma update_ok:
  assumes "sound g" and "aligned fr" and "in_range g"
  shows "\<not> isl (snd (update ppt g img fr))"
proof -
  let ?p = "prepare g img fr"
  have i: "imgOut ?p \<noteq> None" by (simp add: prepare_def Let_def)
  have "fits (startPoint ?p)" "fits (endPoint ?p)"
    using assms(3) by (simp_all add: in_range_def prepare_fields)
  then obtain g4 where c: "centre_line ?p = Inr g4" and o: "imgOut g4 \<noteq> None"
    using centre_line_ok [OF _ _ i] by blast
  have s4: "sound g4"
    using prepare_sound [OF assms(1,2), of img] centre_line_state [OF c]
    by (metis sound_def counted_def hitBar.select_convs(11,12,13) hitBar.surjective
        hitBar.update_convs(14))
  obtain g5 where l: "update_loop ppt g4 fr 0 (midPoints fr) = (g5, None)"
    using update_loop_ok [OF s4, of 0 "midPoints fr" fr ppt] assms(2)
    by (cases "update_loop ppt g4 fr 0 (midPoints fr)") (auto simp: aligned_def)
  have "drifted g4 g5" using update_loop_state [of g4 ppt fr 0 "midPoints fr"] l by simp
  then have "imgOut g5 \<noteq> None" using o by (simp add: drifted_def)
  then show ?thesis using c l by (auto simp: update_def Let_def)
qed

lemma monitor_sound: "sound g \<Longrightarrow> sound (monitor g cs)"
  by (simp add: sound_def monitor_counted monitor_fields)

lemma init_sound: "init isz sp ep nm mon w ml vis = Inr g \<Longrightarrow> sound g"
  using init_fields(1) [of isz sp ep nm mon w ml vis g] init_counted [of isz sp ep nm mon w ml vis g]
  by (simp add: sound_def)

lemma trace_ok:
  "sound g \<Longrightarrow> in_range g \<Longrightarrow> list_all aligned (frames_of calls) \<Longrightarrow>
   list_all (\<lambda>r. \<not> isl r) (trace ppt g calls)"
proof (induction ppt g calls rule: trace.induct)
  case (1 ppt g)
  then show ?case by simp
next
  case (2 ppt g cs rest)
  then show ?case by (simp add: monitor_sound in_range_monitor)
next
  case (3 ppt g img fr rest)
  then show ?case
    using update_ok [of g fr ppt img] update_sound [of g fr ppt img]
    by (simp add: in_range_update)
qed

lemma init_raises:
  "(\<exists>e. init isz sp ep nm mon w ml vis = Inl e) \<longleftrightarrow>
   (sp = None \<or> ep = None) \<and> (isz = None \<or> (\<exists>s. isz = Some s \<and> length s < 2))"
proof -
  have "(\<exists>e. init isz sp ep nm mon w ml vis = Inl e) \<longleftrightarrow> (\<exists>e. bar_ends isz sp ep = Inl e)"
    by (cases "bar_ends isz sp ep") (auto simp: init_def Let_def)
  also have "\<dots> \<longleftrightarrow> (sp = None \<or> ep = None) \<and> (\<exists>e. default_bar isz = Inl e)"
    by (cases sp; cases ep) (simp_all add: bar_ends_def)
  also have "(\<exists>e. default_bar isz = Inl e) \<longleftrightarrow> (isz = None \<or> (\<exists>s. isz = Some s \<and> length s < 2))"
    by (auto simp: default_bar_def Let_def split: option.splits list.splits)
  finally show ?thesis .
qed

lemma drawable_grey: "drawable grey"
  by (simp add: drawable_def grey_def list_all_iff)

lemma in_range_demo_bar: "in_range demo_bar"
  by (simp add: in_range_def demo_bar_def fits_def c_int_def)

text \<open>
  C4, as amended. The constructor raises exactly when an end of the bar is missing and
  the reference size is missing too, or has fewer than two entries. On a constructed
  gate no call of \<^verbatim>\<open>update\<close> raises, provided that each frame has as many labels as
  positions: an identity list of another length, a missing tag, a missing previous frame
  and a degenerate bar are all handled without raising. The coordinates fit a C \<^verbatim>\<open>int\<close>,
  the width is at most \<open>2 ^ 31\<close> and the images can be drawn on.
\<close>

theorem ordinary_aligned_calls_never_raise:
  "(plausible isz sp ep \<longrightarrow>
      ((\<exists>e. init isz sp ep nm mon w ml vis = Inl e) \<longleftrightarrow>
       (sp = None \<or> ep = None) \<and> (isz = None \<or> (\<exists>s. isz = Some s \<and> length s < 2)))) \<and>
   (init isz sp ep nm mon w ml vis = Inr g \<longrightarrow> in_range g \<longrightarrow> list_all ordinary calls \<longrightarrow>
      list_all aligned (frames_of calls) \<longrightarrow> list_all (\<lambda>r. \<not> isl r) (trace ppt g calls))"
proof (intro conjI impI)
  show "(\<exists>e. init isz sp ep nm mon w ml vis = Inl e) \<longleftrightarrow>
      (sp = None \<or> ep = None) \<and> (isz = None \<or> (\<exists>s. isz = Some s \<and> length s < 2))"
    by (rule init_raises)
next
  assume "init isz sp ep nm mon w ml vis = Inr g" and r: "in_range g"
    and a: "list_all aligned (frames_of calls)"
  then have "sound g" by (simp add: init_sound)
  from trace_ok [OF this r a] show "list_all (\<lambda>r. \<not> isl r) (trace ppt g calls)" .
qed

theorem ordinary_aligned_calls_never_raise_witness:
  "plausible None None (Some (800, 300)) \<and>
   (\<exists>e. init None None (Some (800, 300)) ''demoBar'' (Some [''ball'']) 50 50 True = Inl e) \<and>
   init (Some [600, 800, 3]) (Some (0, 300)) (Some (800, 300)) ''demoBar'' (Some [''ball''])
     50 50 True = Inr demo_bar \<and>
   in_range demo_bar \<and>
   list_all ordinary [Update grey ball_in_no_ids, Monitor [''car''], Update grey ball_out] \<and>
   list_all aligned
     (frames_of [Update grey ball_in_no_ids, Monitor [''car''], Update grey ball_out]) \<and>
   list_all (\<lambda>r. \<not> isl r)
     (trace pointPolygonTest demo_bar
        [Update grey ball_in_no_ids, Monitor [''car''], Update grey ball_out])"
proof -
  have p: "plausible None None (Some (800, 300))"
    by (simp add: plausible_def fits_def c_int_def)
  have i: "init (Some [600, 800, 3]) (Some (0, 300)) (Some (800, 300)) ''demoBar''
      (Some [''ball'']) 50 50 True = Inr demo_bar"
    by (simp add: init_demo_bar) (simp add: demo_bar_def)
  have o: "list_all ordinary [Update grey ball_in_no_ids, Monitor [''car''], Update grey ball_out]"
    by (simp add: drawable_grey ball_in_no_ids_def ball_out_def fits_def c_int_def)
  have a: "list_all aligned
     (frames_of [Update grey ball_in_no_ids, Monitor [''car''], Update grey ball_out])"
    by (simp add: aligned_def ball_in_no_ids_def ball_out_def)
  show ?thesis
    using p i o a in_range_demo_bar
      ordinary_aligned_calls_never_raise [where isz = None and sp = None
        and ep = "Some (800, 300)" and nm = "''demoBar''" and mon = "Some [''ball'']"
        and w = 50 and ml = 50 and vis = True]
      ordinary_aligned_calls_never_raise [where isz = "Some [600, 800, 3]"
        and sp = "Some (0, 300)" and ep = "Some (800, 300)" and nm = "''demoBar''"
        and mon = "Some [''ball'']" and w = 50 and ml = 50 and vis = True and g = demo_bar
        and ppt = pointPolygonTest
        and calls = "[Update grey ball_in_no_ids, Monitor [''car''], Update grey ball_out]"]
    by blast
qed

text \<open>
  The claim as stated fails: a frame with a position and no label raises \<^verbatim>\<open>IndexError\<close>
  in the loop of \<^verbatim>\<open>update\<close>, and a frame with a label and no position is accepted and
  makes the next call raise it in \<^verbatim>\<open>_hasIn\<close>.
\<close>

theorem misaligned_frame_raises:
  "init (Some [600, 800, 3]) (Some (0, 300)) (Some (800, 300)) ''demoBar'' (Some [''ball''])
     50 50 True = Inr demo_bar \<and>
   snd (update pointPolygonTest demo_bar grey unlabelled) = Inl IndexError \<and>
   \<not> isl (snd (update pointPolygonTest demo_bar grey ball_no_position)) \<and>
   snd (update pointPolygonTest (fst (update pointPolygonTest demo_bar grey ball_no_position))
     grey ball_out) = Inl IndexError"
proof -
  have i: "init (Some [600, 800, 3]) (Some (0, 300)) (Some (800, 300)) ''demoBar''
      (Some [''ball'']) 50 50 True = Inr demo_bar"
    by (simp add: init_demo_bar) (simp add: demo_bar_def)
  have 1: "snd (update pointPolygonTest demo_bar grey unlabelled) = Inl IndexError"
    by (simp add: unlabelled_def demo_bar_def update_defs)
  have 2: "fst (update pointPolygonTest demo_bar grey ball_no_position) =
     demo_bar\<lparr>history := [ball_no_position],
       realmIn := [(0, 250), (800, 250), (800, 300), (0, 300)],
       realmOut := [(0, 350), (800, 350), (800, 300), (0, 300)],
       imgOut := Some (Line (blended (demo_bar\<lparr>
         realmIn := [(0, 250), (800, 250), (800, 300), (0, 300)],
         realmOut := [(0, 350), (800, 350), (800, 300), (0, 300)]\<rparr>) grey)
         (0, 300) (800, 300) [0, 0, 255] 2)\<rparr>"
    by (simp add: ball_no_position_def demo_bar_def blended_def update_defs geometry_defs)
  have 3: "\<not> isl (snd (update pointPolygonTest demo_bar grey ball_no_position))"
    by (simp add: ball_no_position_def demo_bar_def update_defs)
  have 4: "snd (update pointPolygonTest (fst (update pointPolygonTest demo_bar grey ball_no_position))
      grey ball_out) = Inl IndexError"
    by (simp add: 2)
      (simp add: ball_no_position_def ball_out_def demo_bar_def update_defs geometry_defs)
  show ?thesis using i 1 3 4 by blast
qed

subsection \<open>The degenerate bar\<close>


















subsection \<open>A confirmed crossing\<close>
















subsection \<open>Duplicate detections\<close>

text \<open>
  C9. Duplicate detections are not merged. After a frame with the ball inside
  \<^verbatim>\<open>realmIn\<close>, a frame that lists the ball once inside \<^verbatim>\<open>realmOut\<close> raises the counter to
  1, and a frame that lists it twice, with the same category, identity, tag and position,
  raises it to 2 in the one call.
\<close>

theorem duplicate_entries_count_twice:
  "init (Some [600, 800, 3]) (Some (0, 300)) (Some (800, 300)) ''demoBar'' (Some [''ball''])
     50 50 True = Inr demo_bar \<and>
   labels ball_out_twice = [''ball'', ''ball''] \<and>
   IDs ball_out_twice = [0, 0] \<and>
   midPoints ball_out_twice = [(400, 320), (400, 320)] \<and>
   Accumulator (fst (update pointPolygonTest demo_bar grey ball_in)) ''ball'' = Some 0 \<and>
   Accumulator (fst (update pointPolygonTest (fst (update pointPolygonTest demo_bar grey ball_in))
     grey ball_out)) ''ball'' = Some 1 \<and>
   Accumulator (fst (update pointPolygonTest (fst (update pointPolygonTest demo_bar grey ball_in))
     grey ball_out_twice)) ''ball'' = Some 2"
proof -
  have i: "init (Some [600, 800, 3]) (Some (0, 300)) (Some (800, 300)) ''demoBar''
      (Some [''ball'']) 50 50 True = Inr demo_bar"
    by (simp add: init_demo_bar) (simp add: demo_bar_def)
  have 0: "Accumulator (fst (update pointPolygonTest demo_bar grey ball_in)) ''ball'' = Some 0"
    by (simp add: demo_first_update) (simp add: demo_bar_def)
  have 1: "Accumulator (fst (update pointPolygonTest
      (fst (update pointPolygonTest demo_bar grey ball_in)) grey ball_out)) ''ball'' = Some 1"
    by (simp add: demo_first_update)
      (simp add: ball_in_def ball_out_def demo_bar_def update_defs geometry_defs)
  have 2: "Accumulator (fst (update pointPolygonTest
      (fst (update pointPolygonTest demo_bar grey ball_in)) grey ball_out_twice)) ''ball''
      = Some 2"
    by (rule demo_twice_counts)
  show ?thesis using i 0 1 2 by (simp add: ball_out_twice_def)
qed

subsection \<open>The returned image\<close>

text \<open>
  C2 fails on the code: \<^verbatim>\<open>update\<close> fills both realms on a copy of the image and blends it
  with the image whatever \<^verbatim>\<open>visualize\<close> is; the switch only guards the centre line. With
  \<^verbatim>\<open>visualize=False\<close> the image returned for the demo's background is the blend with the two
  filled bands, not the background.
\<close>

theorem blend_without_visualize:
  "init (Some [600, 800, 3]) (Some (0, 300)) (Some (800, 300)) ''demoBar'' (Some [''ball''])
     50 50 False = Inr (demo_bar\<lparr>visualize := False\<rparr>) \<and>
   map_sum id fst (snd (update pointPolygonTest (demo_bar\<lparr>visualize := False\<rparr>) grey ball_in)) =
     Inr (AddWeighted
            (FillPoly
               (FillPoly grey [(0, 250), (800, 250), (800, 300), (0, 300)] [0, 0, 255, 100])
               [(0, 350), (800, 350), (800, 300), (0, 300)] [255, 0, 0, 100])
            (4 / 10) grey (6 / 10) 0) \<and>
   map_sum id fst (snd (update pointPolygonTest (demo_bar\<lparr>visualize := False\<rparr>) grey ball_in))
     \<noteq> Inr grey"
proof -
  have i: "init (Some [600, 800, 3]) (Some (0, 300)) (Some (800, 300)) ''demoBar''
      (Some [''ball'']) 50 50 False = Inr (demo_bar\<lparr>visualize := False\<rparr>)"
    by (simp add: init_demo_bar) (simp add: demo_bar_def)
  have u: "map_sum id fst (snd (update pointPolygonTest (demo_bar\<lparr>visualize := False\<rparr>)
      grey ball_in)) =
     Inr (AddWeighted
            (FillPoly
               (FillPoly grey [(0, 250), (800, 250), (800, 300), (0, 300)] [0, 0, 255, 100])
               [(0, 350), (800, 350), (800, 300), (0, 300)] [255, 0, 0, 100])
            (4 / 10) grey (6 / 10) 0)"
    by (simp add: ball_in_def demo_bar_def blended_def pts_of_def int32_def update_defs
        geometry_defs)
  show ?thesis using i u by (simp add: grey_def)
qed

subsection \<open>The realms of a slanted bar\<close>

lemma expo_binade:
  fixes e :: int
  assumes "2 powr of_int e \<le> \<bar>x\<bar>" and "\<bar>x\<bar> < 2 powr of_int (e + 1)"
  shows "expo x = max (e - 23) (- 149)"
proof -
  have "0 < \<bar>x\<bar>" using assms(1) by (smt (verit) powr_gt_zero)
  then have "\<lfloor>log 2 \<bar>x\<bar>\<rfloor> = e"
    using assms floor_log_eq_powr_iff [of "\<bar>x\<bar>" 2 e] by simp
  then show ?thesis by (simp add: expo_def)
qed

lemma f32_below_one:
  assumes "1 / 2 \<le> \<bar>x\<bar>" and "\<bar>x\<bar> < 1"
  shows "f32 x = of_int (round_even (x * 16777216)) / 16777216"
proof -
  have "(2::real) powr of_int (- 1) \<le> \<bar>x\<bar>" using assms(1) by (simp add: powr_minus_divide)
  moreover have "\<bar>x\<bar> < 2 powr of_int (- 1 + 1)" using assms(2) by simp
  ultimately have "expo x = max (- 1 - 23) (- 149)" by (rule expo_binade)
  then have e: "expo x = - 24" by simp
  have p: "(2::real) powr of_int (- 24) = 1 / 16777216" by (simp add: powr_minus_divide)
  have "x \<noteq> 0" using assms(1) by auto
  then show ?thesis unfolding f32_def e p by simp
qed

lemma f32_below_four:
  assumes "2 \<le> \<bar>x\<bar>" and "\<bar>x\<bar> < 4"
  shows "f32 x = of_int (round_even (x * 4194304)) / 4194304"
proof -
  have "(2::real) powr of_int 1 \<le> \<bar>x\<bar>" using assms(1) by simp
  moreover have "\<bar>x\<bar> < 2 powr of_int (1 + 1)" using assms(2) by simp
  ultimately have "expo x = max (1 - 23) (- 149)" by (rule expo_binade)
  then have e: "expo x = - 22" by simp
  have p: "(2::real) powr of_int (- 22) = 1 / 4194304" by (simp add: powr_minus_divide)
  have "x \<noteq> 0" using assms(1) by auto
  then show ?thesis unfolding f32_def e p by simp
qed

lemma f32_below_eight:
  assumes "4 \<le> \<bar>x\<bar>" and "\<bar>x\<bar> < 8"
  shows "f32 x = of_int (round_even (x * 2097152)) / 2097152"
proof -
  have "(2::real) powr of_int 2 \<le> \<bar>x\<bar>" using assms(1) by simp
  moreover have "\<bar>x\<bar> < 2 powr of_int (2 + 1)" using assms(2) by simp
  ultimately have "expo x = max (2 - 23) (- 149)" by (rule expo_binade)
  then have e: "expo x = - 21" by simp
  have p: "(2::real) powr of_int (- 21) = 1 / 2097152" by (simp add: powr_minus_divide)
  have "x \<noteq> 0" using assms(1) by auto
  then show ?thesis unfolding f32_def e p by simp
qed

lemma f32_slanted:
  "f32 (4 / 5) = 13421773 / 16777216"
  "f32 (- (4 / 5)) = - (13421773 / 16777216)"
  "f32 (3 / 5) = 5033165 / 8388608"
  "f32 (13421773 / 16777216) = 13421773 / 16777216"
  "f32 (- (13421773 / 16777216)) = - (13421773 / 16777216)"
  "f32 (5033165 / 8388608) = 5033165 / 8388608"
  "f32 (- (5033165 / 8388608)) = - (5033165 / 8388608)"
  "f32 (36909875 / 16777216) = 9227469 / 4194304"
  "f32 (63753421 / 16777216) = 15938355 / 4194304"
  "f32 (38587597 / 8388608) = 9646899 / 2097152"
  "f32 (28521267 / 8388608) = 7130317 / 2097152"
  by (simp_all add: f32_below_one f32_below_four f32_below_eight round_even_def)

text \<open>
  The constructor on the bar from \<open>(0, 0)\<close> to \<open>(3, 4)\<close>: it holds the direction
  \<open>(-0.800000011920929, 0.6000000238418579)\<close>.
\<close>

lemma init_slanted_bar:
  "init None (Some (0, 0)) (Some (3, 4)) ''hitBar'' None 1 50 True = Inr slanted_bar"
  by (simp add: init_def bar_ends_def norm2_def Let_def asarray_def vdiv_def vscale_def vadd_def
        f32_quarters f32_zero f32_slanted slanted_bar_def)

lemma slanted_realmOut:
  "realmOut (prepare slanted_bar img fr) =
     [(- (13421773 / 16777216), 5033165 / 8388608), (9227469 / 4194304, 9646899 / 2097152),
      (3, 4), (0, 0)]"
  by (simp add: prepare_fields band_def Let_def asarray_def vscale_def vadd_def
        f32_quarters f32_zero f32_slanted slanted_bar_def)

text \<open>
  The position \<open>(1, 3)\<close> is on the line through \<open>(-0.8, 0.6)\<close> and \<open>(2.2, 4.6)\<close>, the
  outer edge of \<^verbatim>\<open>realmOut\<close> in exact arithmetic; it is outside the realm that \<^verbatim>\<open>update\<close>
  computes in \<^verbatim>\<open>float32\<close>.
\<close>

lemma slanted_outer_edge:
  "cross (- (4 / 5), 3 / 5) (3 - 4 / 5, 4 + 3 / 5) (1, 3) = 0 \<and>
   \<not> inRealm pointPolygonTest (1, 3) (realmOut (prepare slanted_bar img fr))"
  by (simp add: slanted_realmOut)
     (simp add: cross_def inRealm_def pointPolygonTest_def edges_def on_edge_def crosses_def
        asarray_def f32_quarters)

subsection \<open>A degenerate bar beyond \<open>2 ^ 24\<close>\<close>

text \<open>
  Above \<open>2 ^ 24\<close> not every integer is a \<^verbatim>\<open>float32\<close>: 16777217 is half way between two
  of them and becomes 16777216, the one with the even significand. So the bar with both
  ends at \<open>(16777217, 0)\<close> counts a ball that stays at \<open>(16777216, 0)\<close>, a pixel beside it.
\<close>

lemma f32_tie: "f32 16777217 = 16777216" "f32 16777216 = 16777216"
proof -
  have "(2::real) powr of_int 24 \<le> \<bar>16777217\<bar>" by simp
  moreover have "\<bar>16777217 :: real\<bar> < 2 powr of_int (24 + 1)" by simp
  ultimately have "expo 16777217 = max (24 - 23) (- 149)" by (rule expo_binade)
  then have e: "expo 16777217 = 1" by simp
  show "f32 16777217 = 16777216"
    unfolding f32_def e by (simp add: round_even_def)
  show "f32 16777216 = 16777216"
    using f32_exact [of 16777216 0] by simp
qed

lemma init_far_bar:
  "init None (Some (16777217, 0)) (Some (16777217, 0)) ''hitBar'' (Some [''ball'']) 5 50 True
     = Inr far_bar"
proof -
  have r: "replicate 4 a = [a, a, a, a]" for a :: point by (simp add: numeral_eq_Suc)
  show ?thesis
    by (simp add: init_def bar_ends_def norm2_def monitor_def asarray_def f32_zero f32_tie r
       Let_def far_bar_def)
qed

lemma far_bar_first:
  "fst (update pointPolygonTest far_bar grey ball_beside) =
     far_bar\<lparr>history := [ball_beside],
       imgOut := Some (Line (blended far_bar grey) (16777217, 0) (16777217, 0) [0, 0, 255] 2)\<rparr>"
  by (simp add: ball_beside_def far_bar_def blended_def update_defs band_def asarray_def
      vadd_def vscale_def f32_zero f32_tie inRealm_def pointPolygonTest_def edges_def
      on_edge_def crosses_def cross_def)

lemma far_bar_counts:
  "Accumulator (run pointPolygonTest far_bar [Update grey ball_beside, Update grey ball_beside])
     ''ball'' = Some 1"
  by (simp add: far_bar_first)
    (simp add: ball_beside_def far_bar_def update_defs band_def asarray_def blend_def
      vadd_def vscale_def f32_zero f32_tie f32_quarters inRealm_def pointPolygonTest_def edges_def
      on_edge_def crosses_def cross_def)

end
